theory Spec2Isabelle
  imports Complex_Main "HOL-Library.AList"
begin

section \<open>The MinDIF import script: what is modelled\<close>

text \<open>
  \<^verbatim>\<open>mindif_import.py\<close> is a Python 2 script. It reads the phase list, the measurement
  geometry and the field list of a TIMA scan, paints every classified pixel of every
  field onto one canvas, counts pixels per phase, draws a legend and crops a thumbnail.

  The embedding follows the script top to bottom, one definition per block of the
  script, with the script's variable names. Outside the embedding are the archive, the
  XML reader, the database and the imaging library: a phase node and a field node carry
  the attribute values as \<^verbatim>\<open>int()\<close> and \<^verbatim>\<open>float()\<close> return them, a raster is a grid of
  integers, the width of a rendered string is a function \<open>getsize\<close>, and the
  row id the database returns for a mineral name is a function \<open>mineral_id_of\<close>.

  Python 2 numbers: an \<^verbatim>\<open>int\<close> is an \<^typ>\<open>int\<close>, and \<^verbatim>\<open>/\<close> between two of them is
  floor division (\<open>div\<close>). A \<^verbatim>\<open>float\<close> is modelled by the exact rational it
  denotes (\<^typ>\<open>rat\<close>): the binary rounding of each floating-point operation is not
  represented, and every concrete value used below is one a double holds exactly.
\<close>

datatype error = ZeroDivisionError | KeyError | IndexError

definition bind_err :: "error + 'a \<Rightarrow> ('a \<Rightarrow> error + 'b) \<Rightarrow> error + 'b" where
  "bind_err m f = (case m of Inl e \<Rightarrow> Inl e | Inr x \<Rightarrow> f x)"

text \<open>True division of two floats raises when the divisor is zero.\<close>

definition py_fdiv :: "rat \<Rightarrow> rat \<Rightarrow> error + rat" where
  "py_fdiv a b = (if b = 0 then Inl ZeroDivisionError else Inr (a / b))"

text \<open>
  \<^verbatim>\<open>round(x)\<close> of Python 2 rounds to the nearest integer and a half away from zero;
  \<^verbatim>\<open>int(x)\<close> of a float drops the fraction (towards zero).
\<close>

definition py_round :: "rat \<Rightarrow> int" where
  "py_round r = (if 0 \<le> r then \<lfloor>r + 1 / 2\<rfloor> else - \<lfloor>- r + 1 / 2\<rfloor>)"

definition py_int :: "rat \<Rightarrow> int" where
  "py_int r = (if 0 \<le> r then \<lfloor>r\<rfloor> else - \<lfloor>- r\<rfloor>)"

subsection \<open>\<^verbatim>\<open>get_percent_text\<close> (lines 69-73)\<close>

text \<open>
  \<^verbatim>\<open>"{:4.2f}".format(value)\<close>: the value rounded to two decimals (an exact tie goes to
  the even neighbour), written as sign, integer digits, a point and two digits, and
  padded with spaces on the left to at least four characters.
\<close>

definition round_half_even :: "rat \<Rightarrow> int" where
  "round_half_even r =
     (let f = \<lfloor>r\<rfloor>; d = r - of_int f
      in if d < 1 / 2 then f else if 1 / 2 < d then f + 1 else if even f then f else f + 1)"

definition digit_char :: "nat \<Rightarrow> char" where
  "digit_char n = ''0123456789'' ! (n mod 10)"

fun dec_digits :: "nat \<Rightarrow> string" where
  "dec_digits n =
     (if n < 10 then [digit_char n] else dec_digits (n div 10) @ [digit_char (n mod 10)])"

declare dec_digits.simps [simp del]

definition format_4_2f :: "rat \<Rightarrow> string" where
  "format_4_2f v =
     (let n = nat (round_half_even (\<bar>v\<bar> * 100));
          s = (if v < 0 then ''-'' else '''') @ dec_digits (n div 100) @ ''.'' @
              [digit_char (n div 10), digit_char n]
      in replicate (4 - length s) CHR '' '' @ s)"

definition get_percent_text :: "rat \<Rightarrow> string" where
  "get_percent_text v = (if v < 1 / 100 then ''<0.01'' else format_4_2f v)"

subsection \<open>Dictionaries\<close>

text \<open>
  A dictionary is the list of its items in the order the keys were first stored:
  \<^verbatim>\<open>d[k] = v\<close> is \<^const>\<open>AList.update\<close>, which replaces the value of a key already
  present where it stands and appends a new key at the end; \<^verbatim>\<open>d[k]\<close> raises
  \<^verbatim>\<open>KeyError\<close> when the key is absent.

  The order in which Python 2 iterates a dictionary is the order of its hash table, fixed
  by the interpreter and not by the script. It is a parameter \<open>ord\<close> of the model: from the
  keys in the order they were stored to the keys in the order they are visited.
  \<^verbatim>\<open>copy.deepcopy\<close> and a dictionary comprehension both store into a fresh dictionary
  in the order they visit the old one.
\<close>

type_synonym 'v pydict = "(int \<times> 'v) list"

definition getitem :: "'v pydict \<Rightarrow> int \<Rightarrow> error + 'v" where
  "getitem d k = (case map_of d k of None \<Rightarrow> Inl KeyError | Some v \<Rightarrow> Inr v)"

definition items :: "(int list \<Rightarrow> int list) \<Rightarrow> 'v pydict \<Rightarrow> (int \<times> 'v) list" where
  "items ord d = List.map_filter (\<lambda>k. map_option (Pair k) (map_of d k)) (ord (map fst d))"

definition dict_of :: "(int \<times> 'v) list \<Rightarrow> 'v pydict" where
  "dict_of kvs = foldl (\<lambda>d (k, v). AList.update k v d) [] kvs"

definition deepcopy :: "(int list \<Rightarrow> int list) \<Rightarrow> 'v pydict \<Rightarrow> 'v pydict" where
  "deepcopy ord d = dict_of (items ord d)"

text \<open>
  \<^verbatim>\<open>sorted(xs, key = f, reverse = True)\<close>: the list is reversed, sorted stably by
  ascending key and reversed again, so items with equal keys keep their order.
\<close>

definition sorted_reverse :: "('a \<Rightarrow> nat) \<Rightarrow> 'a list \<Rightarrow> 'a list" where
  "sorted_reverse f xs = rev (sort_key f (rev xs))"

text \<open>
  What CPython 2.7 does for a dictionary of at most five keys that are non-negative
  machine integers with pairwise different residues modulo 8: the table has eight slots
  and is not resized before the sixth key, key \<open>k\<close> has hash \<open>k\<close> and is stored in slot
  \<open>k mod 8\<close>, and iteration walks the slots from 0 to 7.
\<close>

definition py27_small_order :: "int list \<Rightarrow> int list" where
  "py27_small_order ks = sort_key (\<lambda>k. k mod 8) ks"

definition valid_order :: "(int list \<Rightarrow> int list) \<Rightarrow> bool" where
  "valid_order ord = (\<forall>ks. distinct ks \<longrightarrow> distinct (ord ks) \<and> set (ord ks) = set ks)"

subsection \<open>The phase catalogue (lines 172-206)\<close>

text \<open>
  A node of \<^verbatim>\<open>phases.xml\<close> with its attributes converted: \<open>node_id\<close> is
  \<^verbatim>\<open>int(get('id'))\<close>, \<open>node_mass\<close> is \<^verbatim>\<open>float(get('mass'))\<close>, \<open>node_color\<close> is the
  attribute string and \<open>node_rgb\<close> the three numbers \<^verbatim>\<open>int(.., 16)\<close> reads from its
  slices; \<open>node_background\<close> says whether the attribute \<^verbatim>\<open>background\<close> is \<^verbatim>\<open>'yes'\<close>.
\<close>

type_synonym rgb = "nat \<times> nat \<times> nat"

record phase_node =
  node_background :: bool
  node_id :: int
  node_name :: string
  node_color :: string
  node_rgb :: rgb
  node_mass :: rat

record phase =
  mineral_name :: string
  mineral_id :: int
  colour :: rgb
  colour_hex :: string
  mass :: rat
  histogram :: nat

definition phase_entry :: "(string \<Rightarrow> int) \<Rightarrow> phase_node \<Rightarrow> phase" where
  "phase_entry mineral_id_of n =
     \<lparr>mineral_name = node_name n, mineral_id = mineral_id_of (node_name n),
      colour = node_rgb n, colour_hex = node_color n, mass = node_mass n, histogram = 0\<rparr>"

fun phase_loop ::
  "(string \<Rightarrow> int) \<Rightarrow> (string \<Rightarrow> int) \<Rightarrow> phase_node list \<Rightarrow> int \<times> phase pydict
     \<Rightarrow> int \<times> phase pydict" where
  "phase_loop getsize mineral_id_of [] acc = acc"
| "phase_loop getsize mineral_id_of (n # ns) (largest_name_width, phase_map) =
     (if node_background n
      then phase_loop getsize mineral_id_of ns (largest_name_width, phase_map)
      else phase_loop getsize mineral_id_of ns
             (max largest_name_width (getsize (node_name n)),
              AList.update (node_id n) (phase_entry mineral_id_of n) phase_map))"

definition phase_catalog ::
  "(string \<Rightarrow> int) \<Rightarrow> (string \<Rightarrow> int) \<Rightarrow> phase_node list \<Rightarrow> int \<times> phase pydict" where
  "phase_catalog getsize mineral_id_of nodes = phase_loop getsize mineral_id_of nodes (0, [])"

subsection \<open>Measurement, layout and pixel spacing (lines 141-146 and 218-257)\<close>

record measurement =
  view_field_um :: int
  image_width_px :: int
  image_height_px :: int
  sample_diameter_um :: int

definition white :: rgb where
  "white = (255, 255, 255)"

definition font_size :: int where
  "font_size = 24"

definition legend_line_height :: int where
  "legend_line_height = \<lceil>(of_int font_size :: rat) * (13 / 10)\<rceil>"

definition legend_text_x_offset :: int where
  "legend_text_x_offset = legend_line_height * 2 - font_size"

text \<open>\<^verbatim>\<open>int((sample_diameter_um / float(view_field_um)) * image_width_px)\<close>\<close>

definition diameter_px_of :: "measurement \<Rightarrow> error + int" where
  "diameter_px_of m =
     bind_err (py_fdiv (of_int (sample_diameter_um m)) (of_int (view_field_um m)))
       (\<lambda>q. Inr (py_int (q * of_int (image_width_px m))))"

record geometry =
  diameter_px :: int
  max_numeric_width :: int
  legend_start_x :: int
  percent_right_x :: int
  canvas_size :: "int \<times> int"
  origin :: "int \<times> int"
  pixel_spacing :: rat

definition geometry_of :: "(string \<Rightarrow> int) \<Rightarrow> int \<Rightarrow> measurement \<Rightarrow> error + geometry" where
  "geometry_of getsize largest_name_width m =
     bind_err (diameter_px_of m) (\<lambda>d.
       let w = getsize ''<0.01'';
           right = d + legend_text_x_offset + largest_name_width + w + legend_line_height
                     - font_size
       in bind_err (py_fdiv (of_int (view_field_um m)) (of_int (image_width_px m))) (\<lambda>ps.
            Inr \<lparr>diameter_px = d, max_numeric_width = w, legend_start_x = d + 30,
                 percent_right_x = right, canvas_size = (right, d),
                 origin = (d div 2, d div 2), pixel_spacing = ps\<rparr>))"

subsection \<open>The field positions (lines 266-279)\<close>

text \<open>
  A node of \<^verbatim>\<open>fields.xml\<close>: its name and \<^verbatim>\<open>float(get('x'))\<close>, \<^verbatim>\<open>float(get('y'))\<close>,
  the offset of the field from the centre of the sample. The loop turns each node into
  the name and the canvas position of the field's first pixel; the row id the database
  returns for the field is not part of the model.
\<close>

record field_node =
  field_name :: string
  field_x_um :: rat
  field_y_um :: rat

definition field_xy ::
  "rat \<Rightarrow> int \<times> int \<Rightarrow> int \<Rightarrow> int \<Rightarrow> field_node \<Rightarrow> error + string \<times> int \<times> int" where
  "field_xy ps orig iw ih n =
     bind_err (py_fdiv (- field_x_um n) ps) (\<lambda>ax.
     bind_err (py_fdiv (field_y_um n) ps) (\<lambda>ay.
       Inr (field_name n,
            py_round (ax + of_int (fst orig) - of_int (iw div 2)),
            py_round (ay + of_int (snd orig) - of_int (ih div 2)))))"

fun fields_loop ::
  "rat \<Rightarrow> int \<times> int \<Rightarrow> int \<Rightarrow> int \<Rightarrow> field_node list \<Rightarrow> error + (string \<times> int \<times> int) list"
  where
  "fields_loop ps orig iw ih [] = Inr []"
| "fields_loop ps orig iw ih (n # ns) =
     bind_err (field_xy ps orig iw ih n) (\<lambda>f.
     bind_err (fields_loop ps orig iw ih ns) (\<lambda>fs. Inr (f # fs)))"

subsection \<open>Compositing (lines 281-342)\<close>

text \<open>
  A raster is the list of its rows; reading a pixel outside it raises \<^verbatim>\<open>IndexError\<close>.
  The canvas is keyed by the index pair the script hands to the imaging library, white
  where nothing was stored; the library's own range check on a store is not part of the
  model.
\<close>

type_synonym raster = "int list list"

definition getpixel :: "raster \<Rightarrow> nat \<Rightarrow> nat \<Rightarrow> error + int" where
  "getpixel a x y =
     (if y < length a \<and> x < length (a ! y) then Inr (a ! y ! x) else Inl IndexError)"

record comp =
  png_array :: "int \<times> int \<Rightarrow> rgb"
  thumbnail_x_min :: int
  thumbnail_x_max :: int
  thumbnail_y_min :: int
  thumbnail_y_max :: int
  classified_pixel_count :: nat
  phase_map :: "phase pydict"

definition comp_init :: "phase pydict \<Rightarrow> comp" where
  "comp_init pm =
     \<lparr>png_array = (\<lambda>_. white), thumbnail_x_min = 1000000000, thumbnail_x_max = - 1,
      thumbnail_y_min = 1000000000, thumbnail_y_max = - 1, classified_pixel_count = 0,
      phase_map = pm\<rparr>"

fun fold_err :: "('a \<Rightarrow> 's \<Rightarrow> error + 's) \<Rightarrow> 'a list \<Rightarrow> 's \<Rightarrow> error + 's" where
  "fold_err f [] s = Inr s"
| "fold_err f (x # xs) s = bind_err (f x s) (fold_err f xs)"

definition bump :: "phase \<Rightarrow> phase" where
  "bump e = e\<lparr>histogram := histogram e + 1\<rparr>"

text \<open>
  The body of the pixel loop. The state is the canvas with the running bounding box, the
  total and the global histograms, paired with the histograms of the current field.
\<close>

definition pixel ::
  "raster \<Rightarrow> raster \<Rightarrow> int \<Rightarrow> int \<Rightarrow> nat \<Rightarrow> nat \<Rightarrow> comp \<times> phase pydict
     \<Rightarrow> error + comp \<times> phase pydict" where
  "pixel phases_array mask_array field_x field_y y x s =
     bind_err (getpixel phases_array x y) (\<lambda>phase_index.
     bind_err (getpixel mask_array x y) (\<lambda>mask_index.
       if phase_index \<noteq> 0 \<and> mask_index \<noteq> 0 then
         (let c = fst s; field_phase_map = snd s;
              png_x = int x + field_x; png_y = int y + field_y
          in bind_err (getitem (phase_map c) phase_index) (\<lambda>e.
             bind_err (getitem field_phase_map phase_index) (\<lambda>fe.
               Inr (c\<lparr>png_array := (png_array c)((png_x, png_y) := colour e),
                      thumbnail_x_min := min (thumbnail_x_min c) png_x,
                      thumbnail_x_max := max (thumbnail_x_max c) png_x,
                      thumbnail_y_min := min (thumbnail_y_min c) png_y,
                      thumbnail_y_max := max (thumbnail_y_max c) png_y,
                      classified_pixel_count := classified_pixel_count c + 1,
                      phase_map := AList.update phase_index (bump e) (phase_map c)\<rparr>,
                    AList.update phase_index (bump fe) field_phase_map))))
       else Inr s))"

definition pixel_loop ::
  "int \<Rightarrow> int \<Rightarrow> raster \<Rightarrow> raster \<Rightarrow> int \<Rightarrow> int \<Rightarrow> comp \<times> phase pydict
     \<Rightarrow> error + comp \<times> phase pydict" where
  "pixel_loop iw ih phases_array mask_array field_x field_y =
     fold_err (\<lambda>y. fold_err (pixel phases_array mask_array field_x field_y y) [0..<nat iw])
       [0..<nat ih]"

text \<open>
  The rows of one field's \<^verbatim>\<open>INSERT\<close>: the phases the field counted, most pixels
  first. The legend (lines 344-348) is the same expression on the global histograms.
\<close>

definition nonzero_sorted :: "(int list \<Rightarrow> int list) \<Rightarrow> phase pydict \<Rightarrow> (int \<times> phase) list" where
  "nonzero_sorted ord d =
     sorted_reverse (\<lambda>x. histogram (snd x))
       (items ord (dict_of (filter (\<lambda>(k, v). histogram v \<noteq> 0) (items ord d))))"

text \<open>
  One round of the loop over the fields. \<open>tiles\<close> gives the two rasters stored under a
  field's name. The result lists, per field, its name, its histograms and its rows.
\<close>

type_synonym field_result = "string \<times> phase pydict \<times> (int \<times> phase) list"

definition field_step ::
  "(int list \<Rightarrow> int list) \<Rightarrow> (string \<Rightarrow> raster \<times> raster) \<Rightarrow> phase pydict \<Rightarrow> int \<Rightarrow> int
     \<Rightarrow> string \<times> int \<times> int \<Rightarrow> comp \<times> field_result list \<Rightarrow> error + comp \<times> field_result list"
  where
  "field_step ord tiles empty_phase_map iw ih f s =
     (case f of (name, field_x, field_y) \<Rightarrow>
        bind_err
          (pixel_loop iw ih (fst (tiles name)) (snd (tiles name)) field_x field_y
             (fst s, deepcopy ord empty_phase_map))
          (\<lambda>r. Inr (fst r, snd s @ [(name, snd r, nonzero_sorted ord (snd r))])))"

subsection \<open>The legend, the thumbnail box and the whole run (lines 344-365)\<close>

text \<open>A legend row: phase id, label, percentage text and the \<open>y\<close> it is drawn at.\<close>

fun legend_loop ::
  "nat \<Rightarrow> int \<Rightarrow> (int \<times> phase) list \<Rightarrow> error + (int \<times> string \<times> string \<times> int) list" where
  "legend_loop n_classified y [] = Inr []"
| "legend_loop n_classified y (p # ps) =
     bind_err (py_fdiv (of_nat (histogram (snd p))) (of_nat n_classified)) (\<lambda>q.
     bind_err (legend_loop n_classified (y + legend_line_height) ps) (\<lambda>rows.
       Inr ((fst p, mineral_name (snd p), get_percent_text (q * 100), y) # rows)))"

record run_input =
  phase_nodes :: "phase_node list"
  measured :: measurement
  field_nodes :: "field_node list"
  tiles :: "string \<Rightarrow> raster \<times> raster"

record run_result =
  geom :: geometry
  field_positions :: "(string \<times> int \<times> int) list"
  final :: comp
  field_results :: "field_result list"
  legend :: "(int \<times> phase) list"
  legend_rows :: "(int \<times> string \<times> string \<times> int) list"
  thumbnail_bbox :: "int \<times> int \<times> int \<times> int"

definition run ::
  "(int list \<Rightarrow> int list) \<Rightarrow> (string \<Rightarrow> int) \<Rightarrow> (string \<Rightarrow> int) \<Rightarrow> run_input
     \<Rightarrow> error + run_result" where
  "run ord getsize mineral_id_of inp =
     (let cat = phase_catalog getsize mineral_id_of (phase_nodes inp);
          empty_phase_map = deepcopy ord (snd cat);
          m = measured inp
      in bind_err (geometry_of getsize (fst cat) m) (\<lambda>g.
         bind_err (fields_loop (pixel_spacing g) (origin g) (image_width_px m)
                     (image_height_px m) (field_nodes inp)) (\<lambda>fs.
         bind_err (fold_err (field_step ord (tiles inp) empty_phase_map (image_width_px m)
                     (image_height_px m)) fs (comp_init (snd cat), [])) (\<lambda>r.
           let c = fst r; lg = nonzero_sorted ord (phase_map c)
           in bind_err (legend_loop (classified_pixel_count c) 0 lg) (\<lambda>rows.
                Inr \<lparr>geom = g, field_positions = fs, final = c, field_results = snd r, legend = lg,
                     legend_rows = rows,
                     thumbnail_bbox = (thumbnail_x_min c, thumbnail_y_min c,
                                       thumbnail_x_max c, thumbnail_y_max c)\<rparr>)))))"

subsection \<open>Notions used to state the properties\<close>

text \<open>
  The sum of the counters of a dictionary of phases; whether a pixel of a tile is
  classified (both rasters readable there and both values non-zero); and a tile whose
  mask is zero on the whole image area, with the phase raster readable there.
\<close>

definition hsum :: "phase pydict \<Rightarrow> nat" where
  "hsum d = sum_list (map (\<lambda>p. histogram (snd p)) d)"

definition is_classified :: "raster \<Rightarrow> raster \<Rightarrow> nat \<Rightarrow> nat \<Rightarrow> bool" where
  "is_classified phases_array mask_array x y =
     (case getpixel phases_array x y of
        Inl _ \<Rightarrow> False
      | Inr p \<Rightarrow> (case getpixel mask_array x y of Inl _ \<Rightarrow> False | Inr k \<Rightarrow> p \<noteq> 0 \<and> k \<noteq> 0))"

definition blank_tile :: "int \<Rightarrow> int \<Rightarrow> raster \<times> raster \<Rightarrow> bool" where
  "blank_tile iw ih t =
     (\<forall>y < nat ih. \<forall>x < nat iw.
        getpixel (fst t) x y \<noteq> Inl IndexError \<and> getpixel (snd t) x y = Inr 0)"

section \<open>Sample inputs\<close>

text \<open>
  Concrete inputs for the instances below. \<open>mono\<close> measures a string as a monospaced
  font of 14 pixels per character does. \<open>m_big\<close> is a sample of 30 mm scanned in
  fields of 1024 micrometres and 512 pixels; \<open>m_frac\<close> has a diameter that is not a whole
  number of pixels.
\<close>

definition mono :: "string \<Rightarrow> int" where
  "mono s = 14 * int (length s)"

definition m_big :: measurement where
  "m_big = \<lparr>view_field_um = 1024, image_width_px = 512, image_height_px = 512,
            sample_diameter_um = 30000\<rparr>"


definition g_big :: geometry where
  "g_big = \<lparr>diameter_px = 15000, max_numeric_width = 70, legend_start_x = 15030,
            percent_right_x = 15202, canvas_size = (15202, 15000), origin = (7500, 7500),
            pixel_spacing = 2\<rparr>"

text \<open>
  Three phase nodes, one of them the background; the mineral ids the database would
  return; and a measurement with fields of two by two pixels. \<open>inp_tie\<close> has one field
  with one pixel of phase 8, one of phase 1, one of phase 0 and one masked out;
  \<open>inp_blank\<close> is the same field with a mask that is zero everywhere. \<open>r_tie\<close> and
  \<open>r_blank\<close> are the results of the two runs.
\<close>

definition background_node :: phase_node where
  "background_node = \<lparr>node_background = True, node_id = 0, node_name = ''Background'',
              node_color = ''#000000'', node_rgb = (0, 0, 0), node_mass = 0\<rparr>"

definition quartz :: phase_node where
  "quartz = \<lparr>node_background = False, node_id = 8, node_name = ''Quartz'',
              node_color = ''#ff0000'', node_rgb = (255, 0, 0), node_mass = 53 / 20\<rparr>"

definition albite :: phase_node where
  "albite = \<lparr>node_background = False, node_id = 1, node_name = ''Albite'',
              node_color = ''#0000ff'', node_rgb = (0, 0, 255), node_mass = 131 / 50\<rparr>"

definition mineral_ids :: "string \<Rightarrow> int" where
  "mineral_ids s = (if s = ''Quartz'' then 3 else if s = ''Albite'' then 5 else 7)"

definition e_quartz :: "nat \<Rightarrow> phase" where
  "e_quartz h = \<lparr>mineral_name = ''Quartz'', mineral_id = 3, colour = (255, 0, 0),
                  colour_hex = ''#ff0000'', mass = 53 / 20, histogram = h\<rparr>"

definition e_albite :: "nat \<Rightarrow> phase" where
  "e_albite h = \<lparr>mineral_name = ''Albite'', mineral_id = 5, colour = (0, 0, 255),
                  colour_hex = ''#0000ff'', mass = 131 / 50, histogram = h\<rparr>"

definition m_small :: measurement where
  "m_small = \<lparr>view_field_um = 1024, image_width_px = 2, image_height_px = 2,
              sample_diameter_um = 1024\<rparr>"

definition g_small :: geometry where
  "g_small = \<lparr>diameter_px = 2, max_numeric_width = 70, legend_start_x = 32,
              percent_right_x = 204, canvas_size = (204, 2), origin = (1, 1),
              pixel_spacing = 512\<rparr>"

definition inp_tie :: run_input where
  "inp_tie = \<lparr>phase_nodes = [background_node, albite, quartz], measured = m_small,
     field_nodes = [\<lparr>field_name = ''f1'', field_x_um = 0, field_y_um = 0\<rparr>],
     tiles = (\<lambda>_. ([[8, 1], [0, 8]], [[255, 255], [255, 0]]))\<rparr>"

definition inp_blank :: run_input where
  "inp_blank = \<lparr>phase_nodes = [background_node, albite, quartz], measured = m_small,
     field_nodes = [\<lparr>field_name = ''f1'', field_x_um = 0, field_y_um = 0\<rparr>],
     tiles = (\<lambda>_. ([[8, 1], [0, 8]], [[0, 0], [0, 0]]))\<rparr>"

definition c_tie :: comp where
  "c_tie = \<lparr>png_array = (\<lambda>_. white)((0, 0) := (255, 0, 0), (1, 0) := (0, 0, 255)),
      thumbnail_x_min = 0, thumbnail_x_max = 1,
      thumbnail_y_min = 0, thumbnail_y_max = 0, classified_pixel_count = 2,
      phase_map = [(1, e_albite (Suc 0)), (8, e_quartz (Suc 0))]\<rparr>"

definition r_tie :: run_result where
  "r_tie = \<lparr>geom = g_small, field_positions = [(''f1'', 0, 0)], final = c_tie,
      field_results = [(''f1'', [(8, e_quartz (Suc 0)), (1, e_albite (Suc 0))],
                        [(8, e_quartz (Suc 0)), (1, e_albite (Suc 0))])],
      legend = [(8, e_quartz (Suc 0)), (1, e_albite (Suc 0))],
      legend_rows = [(8, ''Quartz'', ''50.00'', 0), (1, ''Albite'', ''50.00'', 32)],
      thumbnail_bbox = (0, 0, 1, 0)\<rparr>"

definition r_blank :: run_result where
  "r_blank = \<lparr>geom = g_small, field_positions = [(''f1'', 0, 0)],
      final = comp_init [(1, e_albite 0), (8, e_quartz 0)],
      field_results = [(''f1'', [(8, e_quartz 0), (1, e_albite 0)], [])],
      legend = [], legend_rows = [],
      thumbnail_bbox = (1000000000, 1000000000, - 1, - 1)\<rparr>"

section \<open>Properties\<close>

subsection \<open>Arithmetic of the helpers\<close>

lemma bind_err_Inr [simp]: "bind_err (Inr x) f = f x"
  by (simp add: bind_err_def)

lemma bind_err_Inl [simp]: "bind_err (Inl e) f = Inl e"
  by (simp add: bind_err_def)

lemma bind_err_eq_Inr: "bind_err m f = Inr y \<longleftrightarrow> (\<exists>x. m = Inr x \<and> f x = Inr y)"
  by (cases m) simp_all

lemma floor_rat_numeral_div [simp]:
  "\<lfloor>(numeral a :: rat) / numeral b\<rfloor> = numeral a div numeral b"
  using floor_divide_of_int_eq [of "numeral a" "numeral b", where ?'a = rat] by simp

lemma floor_rat_one_div [simp]: "\<lfloor>(1 :: rat) / numeral b\<rfloor> = 1 div numeral b"
  using floor_divide_of_int_eq [of 1 "numeral b", where ?'a = rat] by simp

lemma legend_line_height_eq: "legend_line_height = 32"
  by (simp add: legend_line_height_def font_size_def ceiling_eq_iff)

lemma legend_text_x_offset_eq: "legend_text_x_offset = 40"
  by (simp add: legend_text_x_offset_def legend_line_height_eq font_size_def)

lemma py_fdiv_Inr: "py_fdiv a b = Inr q \<longleftrightarrow> b \<noteq> 0 \<and> q = a / b"
  by (auto simp: py_fdiv_def)

lemma geometry_of_Inr:
  "geometry_of getsize lw m = Inr g \<longleftrightarrow>
     view_field_um m \<noteq> 0 \<and> image_width_px m \<noteq> 0 \<and>
     g = (let d = py_int (of_int (sample_diameter_um m) / of_int (view_field_um m) * of_int (image_width_px m));
              w = getsize ''<0.01'';
              right = d + legend_text_x_offset + lw + w + legend_line_height - font_size
          in \<lparr>diameter_px = d, max_numeric_width = w, legend_start_x = d + 30,
               percent_right_x = right, canvas_size = (right, d),
               origin = (d div 2, d div 2),
               pixel_spacing = of_int (view_field_um m) / of_int (image_width_px m)\<rparr>)"
  by (auto simp: geometry_of_def diameter_px_of_def bind_err_eq_Inr py_fdiv_Inr Let_def)


lemma fields_loop_eq:
  "ps \<noteq> 0 \<Longrightarrow>
   fields_loop ps orig iw ih ns =
     Inr (map (\<lambda>n. (field_name n,
                    py_round (- field_x_um n / ps + of_int (fst orig) - of_int (iw div 2)),
                    py_round (field_y_um n / ps + of_int (snd orig) - of_int (ih div 2)))) ns)"
  by (induction ns) (simp_all add: field_xy_def py_fdiv_def)


lemma py_round_uminus: "py_round (- r) = - py_round r"
  unfolding py_round_def by (auto; linarith)

lemma py_round_near: "\<bar>of_int (py_round r) - r\<bar> \<le> 1 / 2"
  unfolding py_round_def by (auto simp: abs_if; linarith)





lemma floor_add_int_half: "\<lfloor>r + of_int c + 1 / 2\<rfloor> = \<lfloor>r + 1 / 2\<rfloor> + c" for r :: rat
  by linarith



lemma geometry_m_big: "geometry_of mono 84 m_big = Inr g_big"
  by (simp add: geometry_of_Inr m_big_def g_big_def mono_def py_int_def Let_def
      legend_line_height_eq legend_text_x_offset_eq font_size_def)

subsection \<open>Dictionaries and the catalogue\<close>

lemma set_update_subset: "set (AList.update k v al) \<subseteq> insert (k, v) (set al)"
  by (induction al) auto

lemma set_dict_of_aux:
  "set (foldl (\<lambda>d (k, v). AList.update k v d) acc kvs) \<subseteq> set acc \<union> set kvs"
proof (induction kvs arbitrary: acc)
  case Nil
  show ?case by simp
next
  case (Cons p kvs)
  obtain k v where p: "p = (k, v)" by (cases p)
  show ?case
    using Cons [of "AList.update k v acc"] set_update_subset [of k v acc]
    by (auto simp: p)
qed

lemma set_dict_of: "set (dict_of kvs) \<subseteq> set kvs"
  using set_dict_of_aux [of "[]" kvs] by (simp add: dict_of_def)

lemma set_items: "set (items ord d) \<subseteq> set d"
  by (auto simp: items_def List.map_filter_def dest: map_of_SomeD)

lemma set_deepcopy: "set (deepcopy ord d) \<subseteq> set d"
  using set_dict_of [of "items ord d"] set_items [of ord d] by (auto simp: deepcopy_def)

lemma hsum_zero_iff: "hsum d = 0 \<longleftrightarrow> (\<forall>p \<in> set d. histogram (snd p) = 0)"
  by (induction d) (auto simp: hsum_def)

lemma hsum_update:
  "map_of d k = Some e \<Longrightarrow> hsum (AList.update k (bump e) d) = hsum d + 1"
  by (induction d) (auto simp: hsum_def bump_def)

lemma getitem_Inr: "getitem d k = Inr v \<longleftrightarrow> map_of d k = Some v"
  by (auto simp: getitem_def split: option.splits)

lemma update_fresh: "k \<notin> fst ` set al \<Longrightarrow> AList.update k v al = al @ [(k, v)]"
  by (induction al) auto

lemma dict_of_aux:
  "distinct (map fst (acc @ kvs)) \<Longrightarrow>
   foldl (\<lambda>d (k, v). AList.update k v d) acc kvs = acc @ kvs"
proof (induction kvs arbitrary: acc)
  case Nil
  show ?case by simp
next
  case (Cons p kvs)
  obtain k v where p: "p = (k, v)" by (cases p)
  have fresh: "k \<notin> fst ` set acc" using Cons.prems by (auto simp: p)
  have "distinct (map fst ((acc @ [(k, v)]) @ kvs))" using Cons.prems by (simp add: p)
  from Cons.IH [OF this] show ?case by (simp add: p update_fresh [OF fresh])
qed

lemma dict_of_distinct: "distinct (map fst kvs) \<Longrightarrow> dict_of kvs = kvs"
  using dict_of_aux [of "[]" kvs] by (simp add: dict_of_def)

lemma map_fst_items_aux:
  "set ks \<subseteq> fst ` set d \<Longrightarrow>
   map fst (List.map_filter (\<lambda>k. map_option (Pair k) (map_of d k)) ks) = ks"
proof (induction ks)
  case Nil
  show ?case by (simp add: List.map_filter_simps)
next
  case (Cons k ks)
  then have "k \<in> fst ` set d" by simp
  then obtain v where "map_of d k = Some v"
    by (metis domD dom_map_of_conv_image_fst)
  with Cons show ?case by (simp add: List.map_filter_simps)
qed

lemma items_valid:
  assumes "valid_order ord" and "distinct (map fst d)"
  shows "map fst (items ord d) = ord (map fst d)"
    and "distinct (map fst (items ord d))"
    and "set (items ord d) = set d"
proof -
  from assms have o: "distinct (ord (map fst d))" "set (ord (map fst d)) = fst ` set d"
    by (auto simp: valid_order_def)
  show k: "map fst (items ord d) = ord (map fst d)"
    unfolding items_def using o(2) by (intro map_fst_items_aux) simp
  show "distinct (map fst (items ord d))" using o(1) k by simp
  show "set (items ord d) = set d"
  proof
    show "set (items ord d) \<subseteq> set d" by (rule set_items)
    show "set d \<subseteq> set (items ord d)"
    proof
      fix p assume p: "p \<in> set d"
      obtain a b where ab: "p = (a, b)" by (cases p)
      have "map_of d a = Some b" using p assms(2) by (simp add: ab)
      moreover have "a \<in> set (ord (map fst d))" using p o(2) by (force simp: ab)
      ultimately show "p \<in> set (items ord d)"
        by (force simp: items_def List.map_filter_def ab)
    qed
  qed
qed

lemma sorted_reverse_props:
  "set (sorted_reverse f xs) = set xs"
  "distinct (map g (sorted_reverse f xs)) = distinct (map g xs)"
  "sorted_wrt (\<lambda>p q. f q \<le> f p) (sorted_reverse f xs)"
  "filter (\<lambda>p. f p = c) (sorted_reverse f xs) = filter (\<lambda>p. f p = c) xs"
proof -
  show "set (sorted_reverse f xs) = set xs" by (simp add: sorted_reverse_def)
  show "distinct (map g (sorted_reverse f xs)) = distinct (map g xs)"
    by (simp add: sorted_reverse_def distinct_map)
  have "sorted (map f (sort_key f (rev xs)))" by (rule sorted_sort_key)
  then show "sorted_wrt (\<lambda>p q. f q \<le> f p) (sorted_reverse f xs)"
    by (simp add: sorted_reverse_def sorted_wrt_rev sorted_map)
  show "filter (\<lambda>p. f p = c) (sorted_reverse f xs) = filter (\<lambda>p. f p = c) xs"
    by (simp add: sorted_reverse_def rev_filter [symmetric] sort_key_stable)
qed

lemma hsum_deepcopy_zero:
  assumes "\<forall>p \<in> set d. histogram (snd p) = 0"
  shows "hsum (deepcopy ord d) = 0"
  using assms set_deepcopy [of ord d] by (auto simp: hsum_zero_iff)

lemma nonzero_sorted_empty:
  assumes "hsum d = 0"
  shows "nonzero_sorted ord d = []"
proof -
  have "filter (\<lambda>(k, v). histogram v \<noteq> 0) (items ord d) = []"
    using assms set_items [of ord d] by (fastforce simp: hsum_zero_iff filter_empty_conv)
  then show ?thesis
    by (simp add: nonzero_sorted_def dict_of_def items_def sorted_reverse_def
        List.map_filter_def)
qed

lemma nonzero_sorted_props:
  assumes "valid_order ord" and "distinct (map fst d)"
  shows "set (nonzero_sorted ord d) = {p \<in> set d. histogram (snd p) \<noteq> 0}"
    and "distinct (map fst (nonzero_sorted ord d))"
    and "sorted_wrt (\<lambda>p q. histogram (snd q) \<le> histogram (snd p)) (nonzero_sorted ord d)"
    and "filter (\<lambda>p. histogram (snd p) = c) (nonzero_sorted ord d) =
         filter (\<lambda>p. histogram (snd p) = c)
           (items ord (filter (\<lambda>p. histogram (snd p) \<noteq> 0) (items ord d)))"
proof -
  let ?F = "filter (\<lambda>(k, v). histogram v \<noteq> 0) (items ord d)"
  have F': "?F = filter (\<lambda>p. histogram (snd p) \<noteq> 0) (items ord d)"
    by (simp add: case_prod_unfold)
  have dF: "distinct (map fst ?F)"
    using items_valid(2) [OF assms] by (simp add: distinct_map_filter)
  have D: "dict_of ?F = ?F" by (rule dict_of_distinct [OF dF])
  have sF: "set ?F = {p \<in> set d. histogram (snd p) \<noteq> 0}"
    using items_valid(3) [OF assms] by auto
  show "set (nonzero_sorted ord d) = {p \<in> set d. histogram (snd p) \<noteq> 0}"
    unfolding nonzero_sorted_def sorted_reverse_props(1) D items_valid(3) [OF assms(1) dF]
    by (rule sF)
  show "distinct (map fst (nonzero_sorted ord d))"
    unfolding nonzero_sorted_def sorted_reverse_props(2) D
    by (rule items_valid(2) [OF assms(1) dF])
  show "sorted_wrt (\<lambda>p q. histogram (snd q) \<le> histogram (snd p)) (nonzero_sorted ord d)"
    unfolding nonzero_sorted_def by (rule sorted_reverse_props(3))
  show "filter (\<lambda>p. histogram (snd p) = c) (nonzero_sorted ord d) =
         filter (\<lambda>p. histogram (snd p) = c)
           (items ord (filter (\<lambda>p. histogram (snd p) \<noteq> 0) (items ord d)))"
    unfolding nonzero_sorted_def sorted_reverse_props(4) D by (simp only: F')
qed

lemma find_append_last:
  "find P (xs @ [x]) = (case find P xs of None \<Rightarrow> (if P x then Some x else None) | Some y \<Rightarrow> Some y)"
  by (induction xs) auto

lemma phase_loop_map_of:
  "map_of (snd (phase_loop gs mid ns (w, pm))) k =
     (case find (\<lambda>n. \<not> node_background n \<and> node_id n = k) (rev ns) of
        None \<Rightarrow> map_of pm k
      | Some n \<Rightarrow> Some (phase_entry mid n))"
proof (induction ns arbitrary: w pm)
  case Nil
  show ?case by simp
next
  case (Cons n ns)
  show ?case
    by (simp add: Cons find_append_last update_conv' split: option.splits)
qed

lemma phase_loop_distinct:
  "distinct (map fst pm) \<Longrightarrow> distinct (map fst (snd (phase_loop gs mid ns (w, pm))))"
  by (induction ns arbitrary: w pm) (simp_all add: distinct_update)

lemma phase_loop_zero:
  "\<forall>p \<in> set pm. histogram (snd p) = 0 \<Longrightarrow>
   \<forall>p \<in> set (snd (phase_loop gs mid ns (w, pm))). histogram (snd p) = 0"
proof (induction ns arbitrary: w pm)
  case Nil
  then show ?case by simp
next
  case (Cons n ns)
  have "\<forall>p \<in> set (AList.update (node_id n) (phase_entry mid n) pm). histogram (snd p) = 0"
    using Cons.prems set_update_subset [of "node_id n" "phase_entry mid n" pm]
    by (auto simp: phase_entry_def)
  with Cons show ?case by simp
qed

lemma hsum_catalog: "hsum (snd (phase_catalog getsize mineral_id_of ns)) = 0"
  using phase_loop_zero [of "[]" getsize mineral_id_of ns 0]
  by (simp add: hsum_zero_iff phase_catalog_def)

subsection \<open>The loops\<close>

lemma fold_err_invariant:
  assumes "fold_err f xs s = Inr s'" and "P s"
    and "\<And>x s s'. x \<in> set xs \<Longrightarrow> P s \<Longrightarrow> f x s = Inr s' \<Longrightarrow> P s'"
  shows "P s'"
  using assms
proof (induction xs arbitrary: s)
  case Nil
  then show ?case by simp
next
  case (Cons x xs)
  from Cons.prems(1) obtain t where t: "f x s = Inr t" and r: "fold_err f xs t = Inr s'"
    by (auto simp: bind_err_eq_Inr)
  have "P t" using Cons.prems(3) [of x s t] Cons.prems(2) t by simp
  moreover have "P u'" if "x' \<in> set xs" "P u" "f x' u = Inr u'" for x' u u'
    using Cons.prems(3) [of x' u u'] that by simp
  ultimately show ?case using Cons.IH [OF r] by blast
qed

lemma fold_err_id: "(\<And>x. x \<in> set xs \<Longrightarrow> f x s = Inr s) \<Longrightarrow> fold_err f xs s = Inr s"
  by (induction xs) simp_all

lemma pixel_unclassified:
  assumes "pixel ph mk fx fy y x s = Inr s'" and "\<not> is_classified ph mk x y"
  shows "s' = s"
  using assms
  by (auto simp: pixel_def is_classified_def bind_err_eq_Inr split: if_splits)

lemma pixel_classified:
  assumes "pixel ph mk fx fy y x s = Inr s'" and "is_classified ph mk x y"
  shows "\<exists>p e fe. getpixel ph x y = Inr p \<and> p \<noteq> 0 \<and>
           map_of (phase_map (fst s)) p = Some e \<and> map_of (snd s) p = Some fe \<and>
           s' = ((fst s)\<lparr>png_array := (png_array (fst s))((int x + fx, int y + fy) := colour e),
                    thumbnail_x_min := min (thumbnail_x_min (fst s)) (int x + fx),
                    thumbnail_x_max := max (thumbnail_x_max (fst s)) (int x + fx),
                    thumbnail_y_min := min (thumbnail_y_min (fst s)) (int y + fy),
                    thumbnail_y_max := max (thumbnail_y_max (fst s)) (int y + fy),
                    classified_pixel_count := classified_pixel_count (fst s) + 1,
                    phase_map := AList.update p (bump e) (phase_map (fst s))\<rparr>,
                 AList.update p (bump fe) (snd s))"
  using assms
  by (auto simp: pixel_def is_classified_def bind_err_eq_Inr getitem_Inr Let_def
      split: if_splits sum.splits)

lemma pixel_blank:
  assumes "getpixel ph x y \<noteq> Inl IndexError" and "getpixel mk x y = Inr 0"
  shows "pixel ph mk fx fy y x s = Inr s"
proof -
  obtain p where "getpixel ph x y = Inr p"
    using assms(1) by (auto simp: getpixel_def split: if_splits)
  then show ?thesis using assms(2) by (simp add: pixel_def)
qed

lemma pixel_loop_invariant:
  assumes "pixel_loop iw ih ph mk fx fy s = Inr s'" and "P s"
    and "\<And>x y s s'. x < nat iw \<Longrightarrow> y < nat ih \<Longrightarrow> P s \<Longrightarrow>
           pixel ph mk fx fy y x s = Inr s' \<Longrightarrow> P s'"
  shows "P s'"
proof (rule fold_err_invariant [where P = P, OF assms(1) [unfolded pixel_loop_def] assms(2)])
  fix y s s'
  assume y: "y \<in> set [0..<nat ih]" and P: "P s"
    and row: "fold_err (pixel ph mk fx fy y) [0..<nat iw] s = Inr s'"
  show "P s'"
  proof (rule fold_err_invariant [where P = P, OF row P])
    fix x t t'
    assume "x \<in> set [0..<nat iw]" and "P t" and "pixel ph mk fx fy y x t = Inr t'"
    then show "P t'" using assms(3) [of x y t t'] y by simp
  qed
qed

lemma pixel_sums:
  assumes "pixel ph mk fx fy y x s = Inr s'"
    and "hsum (phase_map (fst s)) = classified_pixel_count (fst s)"
    and "hsum (snd s) + n0 = classified_pixel_count (fst s)"
  shows "hsum (phase_map (fst s')) = classified_pixel_count (fst s') \<and>
         hsum (snd s') + n0 = classified_pixel_count (fst s')"
proof (cases "is_classified ph mk x y")
  case False
  with assms show ?thesis using pixel_unclassified [OF assms(1)] by simp
next
  case True
  from pixel_classified [OF assms(1) True] obtain p e fe where
    e: "map_of (phase_map (fst s)) p = Some e" and fe: "map_of (snd s) p = Some fe"
    and s': "phase_map (fst s') = AList.update p (bump e) (phase_map (fst s))"
      "snd s' = AList.update p (bump fe) (snd s)"
      "classified_pixel_count (fst s') = classified_pixel_count (fst s) + 1"
    by auto
  show ?thesis
    using assms(2,3) by (simp add: s' hsum_update [OF e] hsum_update [OF fe])
qed

lemma pixel_keys:
  assumes "pixel ph mk fx fy y x s = Inr s'"
  shows "map fst (phase_map (fst s')) = map fst (phase_map (fst s))"
proof (cases "is_classified ph mk x y")
  case False
  then show ?thesis using pixel_unclassified [OF assms] by simp
next
  case True
  from pixel_classified [OF assms True] obtain p e where
    e: "map_of (phase_map (fst s)) p = Some e"
    and s': "phase_map (fst s') = AList.update p (bump e) (phase_map (fst s))"
    by auto
  have "p \<in> fst ` set (phase_map (fst s))"
    using e by (auto dest: map_of_SomeD intro: rev_image_eqI)
  then show ?thesis by (simp add: s' update_keys)
qed

lemma pixel_bbox:
  assumes "pixel ph mk fx fy y x s = Inr s'"
    and "classified_pixel_count (fst s) = 0 \<longrightarrow>
           (thumbnail_x_min (fst s), thumbnail_y_min (fst s),
            thumbnail_x_max (fst s), thumbnail_y_max (fst s)) = b"
  shows "classified_pixel_count (fst s') = 0 \<longrightarrow>
           (thumbnail_x_min (fst s'), thumbnail_y_min (fst s'),
            thumbnail_x_max (fst s'), thumbnail_y_max (fst s')) = b"
proof (cases "is_classified ph mk x y")
  case False
  then show ?thesis using pixel_unclassified [OF assms(1)] assms(2) by simp
next
  case True
  from pixel_classified [OF assms(1) True]
  have "classified_pixel_count (fst s') = classified_pixel_count (fst s) + 1" by auto
  then show ?thesis by simp
qed


lemma pixel_loop_blank_tile:
  assumes "blank_tile iw ih (ph, mk)"
  shows "pixel_loop iw ih ph mk fx fy s = Inr s"
  unfolding pixel_loop_def
proof (rule fold_err_id)
  fix y assume "y \<in> set [0..<nat ih]"
  then have y: "y < nat ih" by simp
  show "fold_err (pixel ph mk fx fy y) [0..<nat iw] s = Inr s"
  proof (rule fold_err_id)
    fix x assume "x \<in> set [0..<nat iw]"
    then have "x < nat iw" by simp
    with y assms show "pixel ph mk fx fy y x s = Inr s"
      by (intro pixel_blank) (simp_all add: blank_tile_def)
  qed
qed

lemma field_step_Inr:
  "field_step ord ts epm iw ih (name, fx, fy) s = Inr s' \<longleftrightarrow>
     (\<exists>r. pixel_loop iw ih (fst (ts name)) (snd (ts name)) fx fy (fst s, deepcopy ord epm) = Inr r
          \<and> s' = (fst r, snd s @ [(name, snd r, nonzero_sorted ord (snd r))]))"
  by (auto simp: field_step_def bind_err_eq_Inr)

lemma run_Inr:
  assumes "run ord getsize mineral_id_of inp = Inr r"
  shows "geometry_of getsize (fst (phase_catalog getsize mineral_id_of (phase_nodes inp)))
       (measured inp) = Inr (geom r)"
    and "fields_loop (pixel_spacing (geom r)) (origin (geom r)) (image_width_px (measured inp))
       (image_height_px (measured inp)) (field_nodes inp) = Inr (field_positions r)"
    and "fold_err (field_step ord (tiles inp)
                 (deepcopy ord (snd (phase_catalog getsize mineral_id_of (phase_nodes inp))))
                 (image_width_px (measured inp)) (image_height_px (measured inp)))
        (field_positions r)
        (comp_init (snd (phase_catalog getsize mineral_id_of (phase_nodes inp))), []) =
       Inr (final r, field_results r)"
    and "legend r = nonzero_sorted ord (phase_map (final r))"
    and "legend_loop (classified_pixel_count (final r)) 0 (legend r) = Inr (legend_rows r)"
    and "thumbnail_bbox r = (thumbnail_x_min (final r), thumbnail_y_min (final r),
                         thumbnail_x_max (final r), thumbnail_y_max (final r))"
  using assms
  by (auto simp: run_def Let_def bind_err_eq_Inr)

lemma field_step_sums:
  assumes "field_step ord ts epm iw ih f s = Inr s'"
    and "hsum epm = 0"
    and "hsum (phase_map (fst s)) = classified_pixel_count (fst s)"
    and "sum_list (map (\<lambda>fr. hsum (fst (snd fr))) (snd s)) = classified_pixel_count (fst s)"
  shows "hsum (phase_map (fst s')) = classified_pixel_count (fst s') \<and>
         sum_list (map (\<lambda>fr. hsum (fst (snd fr))) (snd s')) = classified_pixel_count (fst s')"
proof -
  obtain name fx fy where f: "f = (name, fx, fy)" by (cases f)
  from assms(1) obtain r where
    r: "pixel_loop iw ih (fst (ts name)) (snd (ts name)) fx fy (fst s, deepcopy ord epm) = Inr r"
    and s': "s' = (fst r, snd s @ [(name, snd r, nonzero_sorted ord (snd r))])"
    unfolding f field_step_Inr by blast
  have z: "hsum (deepcopy ord epm) = 0"
    using assms(2) by (intro hsum_deepcopy_zero) (simp add: hsum_zero_iff)
  let ?P = "\<lambda>t. hsum (phase_map (fst t)) = classified_pixel_count (fst t) \<and>
                 hsum (snd t) + classified_pixel_count (fst s) = classified_pixel_count (fst t)"
  have "?P r"
  proof (rule pixel_loop_invariant [where P = ?P, OF r])
    show "?P (fst s, deepcopy ord epm)" using assms(3) z by simp
  next
    fix x y t t'
    assume "?P t" and "pixel (fst (ts name)) (snd (ts name)) fx fy y x t = Inr t'"
    then show "?P t'" using pixel_sums [of _ _ fx fy y x t t'] by blast
  qed
  then show ?thesis using assms(4) by (simp add: s')
qed

lemma run_histogram_sums:
  assumes "run ord getsize mineral_id_of inp = Inr r"
  shows "classified_pixel_count (final r) = hsum (phase_map (final r)) \<and>
         classified_pixel_count (final r) =
           sum_list (map (\<lambda>fr. hsum (fst (snd fr))) (field_results r))"
proof -
  let ?cat = "phase_catalog getsize mineral_id_of (phase_nodes inp)"
  let ?epm = "deepcopy ord (snd ?cat)"
  let ?Q = "\<lambda>s. hsum (phase_map (fst s)) = classified_pixel_count (fst s) \<and>
       sum_list (map (\<lambda>fr. hsum (fst (snd fr))) (snd s)) = classified_pixel_count (fst s)"
  have
    loop: "fold_err (field_step ord (tiles inp) ?epm (image_width_px (measured inp))
             (image_height_px (measured inp))) (field_positions r) (comp_init (snd ?cat), []) =
           Inr (final r, field_results r)"
    by (rule run_Inr(3) [OF assms])
  have epm: "hsum ?epm = 0"
    using hsum_catalog [of getsize mineral_id_of "phase_nodes inp"]
    by (intro hsum_deepcopy_zero) (simp add: hsum_zero_iff)
  have "?Q (final r, field_results r)"
  proof (rule fold_err_invariant [where P = ?Q, OF loop])
    show "?Q (comp_init (snd ?cat), [])"
      by (simp add: comp_init_def hsum_catalog)
  next
    fix f s s'
    assume "?Q s"
      and "field_step ord (tiles inp) ?epm (image_width_px (measured inp))
             (image_height_px (measured inp)) f s = Inr s'"
    then show "?Q s'" using field_step_sums [OF _ epm] by blast
  qed
  then show ?thesis by simp
qed

lemma field_loop_invariant:
  assumes "fold_err (field_step ord ts epm iw ih) fs s = Inr s'" and "P (fst s)"
    and "\<And>name fx fy x y t t'. (name, fx, fy) \<in> set fs \<Longrightarrow> x < nat iw \<Longrightarrow> y < nat ih \<Longrightarrow>
           P (fst t) \<Longrightarrow> pixel (fst (ts name)) (snd (ts name)) fx fy y x t = Inr t' \<Longrightarrow>
           P (fst t')"
  shows "P (fst s')"
proof (rule fold_err_invariant [where P = "\<lambda>s. P (fst s)", OF assms(1,2)])
  fix f u u'
  assume f: "f \<in> set fs" and P: "P (fst u)"
    and step: "field_step ord ts epm iw ih f u = Inr u'"
  obtain name fx fy where fe: "f = (name, fx, fy)" by (cases f)
  from step obtain r where
    r: "pixel_loop iw ih (fst (ts name)) (snd (ts name)) fx fy (fst u, deepcopy ord epm) = Inr r"
    and u': "u' = (fst r, snd u @ [(name, snd r, nonzero_sorted ord (snd r))])"
    unfolding fe field_step_Inr by blast
  have "P (fst r)"
  proof (rule pixel_loop_invariant [where P = "\<lambda>t. P (fst t)", OF r])
    show "P (fst (fst u, deepcopy ord epm))" using P by simp
  next
    fix x y t t'
    assume "x < nat iw" "y < nat ih" "P (fst t)"
      "pixel (fst (ts name)) (snd (ts name)) fx fy y x t = Inr t'"
    then show "P (fst t')" using assms(3) [of name fx fy x y t t'] f fe by simp
  qed
  then show "P (fst u')" by (simp add: u')
qed

lemma run_bbox:
  assumes "run ord getsize mineral_id_of inp = Inr r"
    and "classified_pixel_count (final r) = 0"
  shows "thumbnail_bbox r = (1000000000, 1000000000, - 1, - 1)"
proof -
  let ?K = "\<lambda>c. classified_pixel_count c = 0 \<longrightarrow>
              (thumbnail_x_min c, thumbnail_y_min c, thumbnail_x_max c, thumbnail_y_max c) =
              (1000000000, 1000000000, - 1, - 1)"
  have "?K (fst (final r, field_results r))"
  proof (rule field_loop_invariant [where P = ?K, OF run_Inr(3) [OF assms(1)]])
    show "?K (fst (comp_init (snd (phase_catalog getsize mineral_id_of (phase_nodes inp))), []))"
      by (simp add: comp_init_def)
  next
    fix name fx fy x y t t'
    assume "?K (fst t)"
      and "pixel (fst (tiles inp name)) (snd (tiles inp name)) fx fy y x t = Inr t'"
    then show "?K (fst t')" by (rule pixel_bbox [rotated])
  qed
  then show ?thesis using assms(2) run_Inr(6) [OF assms(1)] by simp
qed

lemma run_zero_count:
  assumes "run ord getsize mineral_id_of inp = Inr r"
    and "classified_pixel_count (final r) = 0"
  shows "legend r = [] \<and> legend_rows r = [] \<and>
         thumbnail_bbox r = (1000000000, 1000000000, - 1, - 1)"
proof -
  have "hsum (phase_map (final r)) = 0"
    using run_histogram_sums [OF assms(1)] assms(2) by simp
  then have l: "legend r = []"
    using run_Inr(4) [OF assms(1)] by (simp add: nonzero_sorted_empty)
  then have "legend_rows r = []"
    using run_Inr(5) [OF assms(1)] by simp
  with l run_bbox [OF assms] show ?thesis by simp
qed


lemma run_keys:
  assumes "run ord getsize mineral_id_of inp = Inr r"
  shows "map fst (phase_map (final r)) =
         map fst (snd (phase_catalog getsize mineral_id_of (phase_nodes inp)))"
proof -
  let ?pm = "snd (phase_catalog getsize mineral_id_of (phase_nodes inp))"
  let ?P = "\<lambda>c. map fst (phase_map c) = map fst ?pm"
  have "?P (fst (final r, field_results r))"
  proof (rule field_loop_invariant [where P = ?P, OF run_Inr(3) [OF assms]])
    show "?P (fst (comp_init ?pm, []))" by (simp add: comp_init_def)
  next
    fix name fx fy x y t t'
    assume "?P (fst t)"
      and "pixel (fst (tiles inp name)) (snd (tiles inp name)) fx fy y x t = Inr t'"
    then show "?P (fst t')" using pixel_keys [of _ _ fx fy y x t t'] by simp
  qed
  then show ?thesis by simp
qed

lemma field_loop_blank:
  assumes "\<forall>f \<in> set fs. blank_tile iw ih (ts (fst f))"
  shows "fold_err (field_step ord ts epm iw ih) fs (c, rs) =
           Inr (c, rs @ map (\<lambda>f. (fst f, deepcopy ord epm, nonzero_sorted ord (deepcopy ord epm))) fs)"
  using assms
proof (induction fs arbitrary: rs)
  case Nil
  show ?case by simp
next
  case (Cons f fs)
  obtain name fx fy where f: "f = (name, fx, fy)" by (cases f)
  have "blank_tile iw ih (fst (ts name), snd (ts name))"
    using Cons.prems by (simp add: f)
  then have "field_step ord ts epm iw ih f (c, rs) =
      Inr (c, rs @ [(name, deepcopy ord epm, nonzero_sorted ord (deepcopy ord epm))])"
    by (simp add: f field_step_def pixel_loop_blank_tile)
  then show ?case using Cons.IH [of "rs @ [(name, deepcopy ord epm,
      nonzero_sorted ord (deepcopy ord epm))]"] Cons.prems by (simp add: f)
qed

lemma run_blank_tiles:
  assumes "view_field_um (measured inp) \<noteq> 0" and "image_width_px (measured inp) \<noteq> 0"
    and "\<forall>n \<in> set (field_nodes inp).
           blank_tile (image_width_px (measured inp)) (image_height_px (measured inp))
             (tiles inp (field_name n))"
  shows "\<exists>r. run ord getsize mineral_id_of inp = Inr r \<and> classified_pixel_count (final r) = 0"
proof -
  let ?cat = "phase_catalog getsize mineral_id_of (phase_nodes inp)"
  obtain g where g: "geometry_of getsize (fst ?cat) (measured inp) = Inr g"
    using assms(1,2) by (simp add: geometry_of_Inr)
  have ps: "pixel_spacing g \<noteq> 0"
    using g assms(1,2) by (auto simp: geometry_of_Inr Let_def)
  define fs where "fs = map (\<lambda>n. (field_name n,
                  py_round (- field_x_um n / pixel_spacing g + of_int (fst (origin g))
                            - of_int (image_width_px (measured inp) div 2)),
                  py_round (field_y_um n / pixel_spacing g + of_int (snd (origin g))
                            - of_int (image_height_px (measured inp) div 2)))) (field_nodes inp)"
  have fs: "fields_loop (pixel_spacing g) (origin g) (image_width_px (measured inp))
              (image_height_px (measured inp)) (field_nodes inp) = Inr fs"
    unfolding fs_def by (rule fields_loop_eq [OF ps])
  have blank: "\<forall>f \<in> set fs. blank_tile (image_width_px (measured inp))
                 (image_height_px (measured inp)) (tiles inp (fst f))"
    unfolding fs_def using assms(3) by simp
  have lg: "nonzero_sorted ord (snd ?cat) = []"
    by (rule nonzero_sorted_empty [OF hsum_catalog])
  show ?thesis
    unfolding run_def Let_def g bind_err_Inr fs field_loop_blank [OF blank]
    by (simp add: comp_init_def lg)
qed

subsection \<open>The sample runs\<close>

lemma bump_e [simp]: "bump (e_quartz h) = e_quartz (Suc h)" "bump (e_albite h) = e_albite (Suc h)"
  by (simp_all add: bump_def e_quartz_def e_albite_def)

lemma sel_e [simp]:
  "histogram (e_quartz h) = h" "histogram (e_albite h) = h"
  "colour (e_quartz h) = (255, 0, 0)" "colour (e_albite h) = (0, 0, 255)"
  "mineral_name (e_quartz h) = ''Quartz''" "mineral_name (e_albite h) = ''Albite''"
  by (simp_all add: e_quartz_def e_albite_def)

lemma sel_small [simp]:
  "image_width_px m_small = 2" "image_height_px m_small = 2"
  "pixel_spacing g_small = 512" "origin g_small = (1, 1)"
  by (simp_all add: m_small_def g_small_def)

lemma sel_comp_init [simp]:
  "thumbnail_x_min (comp_init pm) = 1000000000" "thumbnail_x_max (comp_init pm) = - 1"
  "thumbnail_y_min (comp_init pm) = 1000000000" "thumbnail_y_max (comp_init pm) = - 1"
  "classified_pixel_count (comp_init pm) = 0" "phase_map (comp_init pm) = pm"
  "png_array (comp_init pm) = (\<lambda>_. white)"
  by (simp_all add: comp_init_def)

lemma catalog_sample:
  "phase_catalog mono mineral_ids [background_node, albite, quartz] =
     (84, [(1, e_albite 0), (8, e_quartz 0)])"
  by (simp add: phase_catalog_def background_node_def albite_def quartz_def mono_def
      mineral_ids_def phase_entry_def e_albite_def e_quartz_def)

lemma items_py27 [simp]:
  "items py27_small_order [(1, a), (8, q)] = [(8, q), (1, a)]"
  "items py27_small_order [(8, q), (1, a)] = [(8, q), (1, a)]"
  "items py27_small_order [] = []"
  by (simp_all add: items_def py27_small_order_def List.map_filter_def)

lemma dict_of_small [simp]: "dict_of [] = []" "dict_of [(8, q), (1, a)] = [(8, q), (1, a)]"
  by (simp_all add: dict_of_def)

lemma geometry_m_small: "geometry_of mono 84 m_small = Inr g_small"
  by (simp add: geometry_of_Inr m_small_def g_small_def mono_def py_int_def Let_def
      legend_line_height_eq legend_text_x_offset_eq font_size_def)

lemma fields_sample:
  "field_xy 512 (1, 1) 2 2 \<lparr>field_name = ''f1'', field_x_um = 0, field_y_um = 0\<rparr> =
     Inr (''f1'', 0, 0)"
  by (simp add: field_xy_def py_fdiv_def py_round_def)

lemma upto2: "[0..<2] = [0, Suc 0]"
  by (simp add: upt_rec)

lemma pixel_loop_tie:
  "pixel_loop 2 2 [[8, 1], [0, 8]] [[255, 255], [255, 0]] 0 0
     (comp_init [(1, e_albite 0), (8, e_quartz 0)], [(8, e_quartz 0), (1, e_albite 0)]) =
   Inr (c_tie, [(8, e_quartz (Suc 0)), (1, e_albite (Suc 0))])"
  by (simp add: pixel_loop_def upto2 pixel_def getpixel_def getitem_def comp_init_def c_tie_def)

lemma pixel_loop_blank:
  "pixel_loop 2 2 [[8, 1], [0, 8]] [[0, 0], [0, 0]] 0 0
     (comp_init [(1, e_albite 0), (8, e_quartz 0)], [(8, e_quartz 0), (1, e_albite 0)]) =
   Inr (comp_init [(1, e_albite 0), (8, e_quartz 0)], [(8, e_quartz 0), (1, e_albite 0)])"
  by (simp add: pixel_loop_def upto2 pixel_def getpixel_def)

lemma nonzero_sorted_tie [simp]:
  "nonzero_sorted py27_small_order [(1, e_albite (Suc 0)), (8, e_quartz (Suc 0))] =
     [(8, e_quartz (Suc 0)), (1, e_albite (Suc 0))]"
  "nonzero_sorted py27_small_order [(8, e_quartz (Suc 0)), (1, e_albite (Suc 0))] =
     [(8, e_quartz (Suc 0)), (1, e_albite (Suc 0))]"
  by (simp_all add: nonzero_sorted_def sorted_reverse_def)

lemma nonzero_sorted_blank [simp]:
  "nonzero_sorted py27_small_order [(1, e_albite 0), (8, e_quartz 0)] = []"
  "nonzero_sorted py27_small_order [(8, e_quartz 0), (1, e_albite 0)] = []"
  by (simp_all add: nonzero_sorted_def sorted_reverse_def)

lemma legend_loop_tie:
  "legend_loop 2 0 [(8, e_quartz (Suc 0)), (1, e_albite (Suc 0))] =
     Inr [(8, ''Quartz'', ''50.00'', 0), (1, ''Albite'', ''50.00'', 32)]"
  by (simp add: py_fdiv_def legend_line_height_eq get_percent_text_def format_4_2f_def
      round_half_even_def dec_digits.simps digit_char_def Let_def)

lemma run_tie: "run py27_small_order mono mineral_ids inp_tie = Inr r_tie"
  by (simp add: run_def inp_tie_def catalog_sample deepcopy_def geometry_m_small
      fields_sample field_step_def pixel_loop_tie legend_loop_tie r_tie_def c_tie_def Let_def
      del: legend_loop.simps)

lemma run_blank: "run py27_small_order mono mineral_ids inp_blank = Inr r_blank"
  by (simp add: run_def inp_blank_def catalog_sample deepcopy_def geometry_m_small
      fields_sample field_step_def pixel_loop_blank r_blank_def Let_def)

lemma valid_py27: "valid_order py27_small_order"
  by (simp add: valid_order_def py27_small_order_def)

subsection \<open>Field positions\<close>






subsection \<open>Diameter and layout\<close>




text \<open>
  Claim C2. The spec places the right edge of the percentage column at
  \<open>legend_start_x + text offset + widest label + width of "<0.01" + line height - font size\<close>.
  The script starts the sum from \<open>diameter_px\<close>, not from \<open>legend_start_x\<close>: its value
  is 30 pixels short of the spec's, the canvas is as wide as that value, and a
  percentage as wide as \<open>"<0.01"\<close> begins left of where the widest label ends.
\<close>

theorem percent_right_x_short:
  assumes "geometry_of getsize lw m = Inr g"
  shows "legend_start_x g = diameter_px g + 30 \<and>
         max_numeric_width g = getsize ''<0.01'' \<and>
         fst (canvas_size g) = percent_right_x g \<and>
         percent_right_x g = legend_start_x g + legend_text_x_offset + lw + max_numeric_width g
                               + legend_line_height - font_size - 30 \<and>
         percent_right_x g - max_numeric_width g < legend_start_x g + legend_text_x_offset + lw"
  using assms
  by (auto simp: geometry_of_Inr Let_def legend_line_height_eq font_size_def)

theorem percent_right_x_short_witness:
  "geometry_of mono 84 m_big = Inr g_big \<and> percent_right_x g_big = 15202 \<and>
   legend_start_x g_big + legend_text_x_offset + 84 + max_numeric_width g_big
     + legend_line_height - font_size = 15232"
  using percent_right_x_short [OF geometry_m_big] geometry_m_big
  by (simp add: g_big_def legend_line_height_eq legend_text_x_offset_eq font_size_def)

subsection \<open>Percentage text\<close>

lemma length_dec_digits:
  "length (dec_digits n) = (if n < 10 then 1 else Suc (length (dec_digits (n div 10))))"
  by (subst dec_digits.simps) simp

lemma length_dec_digits_1: "n < 10 \<Longrightarrow> length (dec_digits n) = 1"
  by (simp add: length_dec_digits)

lemma length_dec_digits_2: "10 \<le> n \<Longrightarrow> n < 100 \<Longrightarrow> length (dec_digits n) = 2"
  by (subst length_dec_digits) (simp add: length_dec_digits_1)

lemma length_dec_digits_3: "100 \<le> n \<Longrightarrow> n < 1000 \<Longrightarrow> length (dec_digits n) = 3"
  by (subst length_dec_digits) (simp add: length_dec_digits_2)

lemma length_dec_digits_pos: "Suc 0 \<le> length (dec_digits n)"
  by (subst length_dec_digits) simp

lemma round_half_even_near: "\<bar>of_int (round_half_even r) - r\<bar> \<le> 1 / 2"
  unfolding round_half_even_def Let_def
  by (auto simp: abs_if; linarith)

lemma round_half_even_le: "r < of_int k + 1 / 2 \<Longrightarrow> round_half_even r \<le> k"
  unfolding round_half_even_def Let_def
  by (auto; linarith)

lemma round_half_even_ge: "odd k \<Longrightarrow> of_int k + 1 / 2 \<le> r \<Longrightarrow> k + 1 \<le> round_half_even r"
proof -
  assume k: "odd k" and r: "of_int k + 1 / 2 \<le> r"
  have f: "k \<le> \<lfloor>r\<rfloor>" using r by linarith
  show ?thesis
  proof (cases "\<lfloor>r\<rfloor> = k")
    case True
    then show ?thesis using k r unfolding round_half_even_def Let_def by auto
  next
    case False
    then have "k + 1 \<le> \<lfloor>r\<rfloor>" using f by linarith
    then show ?thesis unfolding round_half_even_def Let_def by (auto; linarith)
  qed
qed

lemma round_half_even_nonneg: "0 \<le> r \<Longrightarrow> 0 \<le> round_half_even r"
  unfolding round_half_even_def Let_def
  by (auto; linarith)

lemma format_shape:
  assumes "0 \<le> v"
  shows "format_4_2f v = dec_digits (nat (round_half_even (v * 100)) div 100) @ ''.'' @
      [digit_char (nat (round_half_even (v * 100)) div 10), digit_char (nat (round_half_even (v * 100)))]"
  using assms length_dec_digits_pos [of "nat (round_half_even (v * 100)) div 100"]
  by (simp add: format_4_2f_def Let_def)

text \<open>
  Claim C9. Below one hundredth the text is \<open>"<0.01"\<close>; from one hundredth on it is the
  value rounded to two decimals, written with all its integer digits. Its length is
  therefore three more than the number of integer digits: 4 below 9.995, 5 from there
  to below 99.995 and 6 up to 100. It is not constant.
\<close>

theorem get_percent_text_rendering:
  "(v < 1 / 100 \<longrightarrow> get_percent_text v = ''<0.01'') \<and>
   (1 / 100 \<le> v \<longrightarrow>
      (let n = nat (round_half_even (v * 100))
       in get_percent_text v =
            dec_digits (n div 100) @ ''.'' @ [digit_char (n div 10), digit_char n] \<and>
          \<bar>of_nat n / 100 - v\<bar> \<le> 1 / 200 \<and>
          length (get_percent_text v) = length (dec_digits (n div 100)) + 3 \<and>
          (v < 1999 / 200 \<longrightarrow> length (get_percent_text v) = 4) \<and>
          (1999 / 200 \<le> v \<and> v < 19999 / 200 \<longrightarrow> length (get_percent_text v) = 5) \<and>
          (19999 / 200 \<le> v \<and> v \<le> 100 \<longrightarrow> length (get_percent_text v) = 6)))"
proof (intro conjI impI)
  assume "v < 1 / 100"
  then show "get_percent_text v = ''<0.01''"
    by (simp add: get_percent_text_def)
next
  assume v: "1 / 100 \<le> v"
  define q where "q = round_half_even (v * 100)"
  define n where "n = nat q"
  have q0: "0 \<le> q"
    unfolding q_def using v by (intro round_half_even_nonneg) simp
  have nq: "int n = q"
    using q0 by (simp add: n_def)
  have shape: "get_percent_text v =
      dec_digits (n div 100) @ ''.'' @ [digit_char (n div 10), digit_char n]"
    using v format_shape [of v] by (simp add: get_percent_text_def n_def q_def)
  have len: "length (get_percent_text v) = length (dec_digits (n div 100)) + 3"
    by (simp add: shape)
  have "\<bar>of_int q - v * 100\<bar> \<le> 1 / 2"
    unfolding q_def by (rule round_half_even_near)
  moreover have "(of_nat n :: rat) = of_int q"
    using nq by (metis of_int_of_nat_eq)
  ultimately have near: "\<bar>of_nat n / 100 - v\<bar> \<le> 1 / 200"
    by (simp add: abs_if split: if_splits)
  have l4: "length (get_percent_text v) = 4" if "v < 1999 / 200"
  proof -
    have "q \<le> 999"
      unfolding q_def using that by (intro round_half_even_le) simp
    then have "n div 100 < 10" using nq by linarith
    then show ?thesis by (simp add: len length_dec_digits_1)
  qed
  have l5: "length (get_percent_text v) = 5" if "1999 / 200 \<le> v \<and> v < 19999 / 200"
  proof -
    have "q \<le> 9999"
      unfolding q_def using that by (intro round_half_even_le) simp
    moreover have "999 + 1 \<le> q"
      unfolding q_def using that by (intro round_half_even_ge) simp_all
    ultimately have "10 \<le> n div 100" "n div 100 < 100" using nq by linarith+
    then show ?thesis by (simp add: len length_dec_digits_2)
  qed
  have l6: "length (get_percent_text v) = 6" if "19999 / 200 \<le> v \<and> v \<le> 100"
  proof -
    have "q \<le> 10000"
      unfolding q_def using that by (intro round_half_even_le) simp
    moreover have "9999 + 1 \<le> q"
      unfolding q_def using that by (intro round_half_even_ge) simp_all
    ultimately have "100 \<le> n div 100" "n div 100 < 1000" using nq by linarith+
    then show ?thesis by (simp add: len length_dec_digits_3)
  qed
  show "let n = nat (round_half_even (v * 100))
       in get_percent_text v =
            dec_digits (n div 100) @ ''.'' @ [digit_char (n div 10), digit_char n] \<and>
          \<bar>of_nat n / 100 - v\<bar> \<le> 1 / 200 \<and>
          length (get_percent_text v) = length (dec_digits (n div 100)) + 3 \<and>
          (v < 1999 / 200 \<longrightarrow> length (get_percent_text v) = 4) \<and>
          (1999 / 200 \<le> v \<and> v < 19999 / 200 \<longrightarrow> length (get_percent_text v) = 5) \<and>
          (19999 / 200 \<le> v \<and> v \<le> 100 \<longrightarrow> length (get_percent_text v) = 6)"
    unfolding Let_def n_def [symmetric] q_def [symmetric]
    using shape near len l4 l5 l6 by blast
qed

theorem get_percent_text_rendering_witness:
  "get_percent_text 0 = ''<0.01'' \<and> get_percent_text (157 / 50) = ''3.14'' \<and>
   length (get_percent_text 100) = 6"
  using get_percent_text_rendering [of 0] get_percent_text_rendering [of "157 / 50"]
    get_percent_text_rendering [of 100]
  by (simp add: Let_def round_half_even_def dec_digits.simps digit_char_def)

theorem get_percent_text_length_counterexample:
  "get_percent_text (1 / 2) = ''0.50'' \<and> get_percent_text 50 = ''50.00'' \<and>
   get_percent_text 100 = ''100.00''"
  by (simp add: get_percent_text_def format_4_2f_def Let_def round_half_even_def
      dec_digits.simps digit_char_def)

subsection \<open>The catalogue\<close>

text \<open>
  Claim C5. The spec lets catalogue construction fail with \<open>DuplicatePhaseID\<close> when two
  non-background records share an id. The script stores each record under its id with
  \<^verbatim>\<open>phase_map[id] = ...\<close>, so construction never fails: the catalogue has one entry
  per id, and it is the entry of the last non-background record with that id.
\<close>

theorem phase_catalog_last_record_wins:
  "distinct (map fst (snd (phase_catalog getsize mineral_id_of ns))) \<and>
   map_of (snd (phase_catalog getsize mineral_id_of ns)) k =
     map_option (phase_entry mineral_id_of)
       (find (\<lambda>n. \<not> node_background n \<and> node_id n = k) (rev ns))"
  unfolding phase_catalog_def
  using phase_loop_distinct [of "[]" getsize mineral_id_of ns 0]
  by (simp add: phase_loop_map_of split: option.splits)

theorem phase_catalog_last_record_wins_witness:
  "map_of (snd (phase_catalog mono mineral_ids [quartz, albite\<lparr>node_id := 8\<rparr>])) 8 =
     Some (phase_entry mineral_ids (albite\<lparr>node_id := 8\<rparr>))"
  using phase_catalog_last_record_wins [of mono mineral_ids "[quartz, albite\<lparr>node_id := 8\<rparr>]" 8]
  by (simp add: quartz_def albite_def)

theorem phase_catalog_duplicate_counterexample:
  "phase_catalog mono mineral_ids [quartz, albite\<lparr>node_id := 8\<rparr>] =
     (84, [(8, \<lparr>mineral_name = ''Albite'', mineral_id = 5, colour = (0, 0, 255),
                colour_hex = ''#0000ff'', mass = 131 / 50, histogram = 0\<rparr>)])"
  by (simp add: phase_catalog_def quartz_def albite_def mono_def mineral_ids_def phase_entry_def)

subsection \<open>Compositing\<close>



text \<open>
  Claim C10. When the run completes, the total of classified pixels equals the sum of the
  global histogram over all phases, and equals the sum, over all fields, of the sums of
  the fields' histograms.
\<close>

theorem histogram_totals:
  assumes "run ord getsize mineral_id_of inp = Inr r"
  shows "classified_pixel_count (final r) = hsum (phase_map (final r)) \<and>
         classified_pixel_count (final r) =
           sum_list (map (\<lambda>fr. hsum (fst (snd fr))) (field_results r))"
  by (rule run_histogram_sums [OF assms])

theorem histogram_totals_witness:
  "run py27_small_order mono mineral_ids inp_tie = Inr r_tie \<and>
   classified_pixel_count (final r_tie) = 2 \<and>
   hsum (phase_map (final r_tie)) = 2 \<and>
   sum_list (map (\<lambda>fr. hsum (fst (snd fr))) (field_results r_tie)) = 2"
proof -
  have "classified_pixel_count (final r_tie) = 2"
    by (simp add: r_tie_def c_tie_def)
  then show ?thesis using histogram_totals [OF run_tie] run_tie by simp
qed

text \<open>
  Claim C4. The spec lets the run fail with \<open>EmptyClassification\<close> before the crop when no
  pixel was classified. The script has no such check. A run that ends compositing with a
  total of zero has an empty legend and hands the box it started from,
  \<open>(1000000000, 1000000000, -1, -1)\<close>, to the crop; and a run whose geometry is valid and
  whose fields all have a zero mask does end compositing, with a total of zero.
\<close>

theorem empty_classification_no_error:
  "(run ord getsize mineral_id_of inp = Inr r \<longrightarrow> classified_pixel_count (final r) = 0 \<longrightarrow>
      legend r = [] \<and> legend_rows r = [] \<and>
      thumbnail_bbox r = (1000000000, 1000000000, - 1, - 1)) \<and>
   (view_field_um (measured inp) \<noteq> 0 \<longrightarrow> image_width_px (measured inp) \<noteq> 0 \<longrightarrow>
    (\<forall>n \<in> set (field_nodes inp).
       blank_tile (image_width_px (measured inp)) (image_height_px (measured inp))
         (tiles inp (field_name n))) \<longrightarrow>
    (\<exists>r'. run ord getsize mineral_id_of inp = Inr r' \<and> classified_pixel_count (final r') = 0))"
  using run_zero_count [of ord getsize mineral_id_of inp r]
    run_blank_tiles [of inp ord getsize mineral_id_of]
  by blast

theorem empty_classification_no_error_witness:
  "run py27_small_order mono mineral_ids inp_blank = Inr r_blank \<and>
   classified_pixel_count (final r_blank) = 0 \<and>
   blank_tile 2 2 (tiles inp_blank ''f1'') \<and>
   legend_rows r_blank = [] \<and>
   thumbnail_bbox r_blank = (1000000000, 1000000000, - 1, - 1)"
proof -
  have c: "classified_pixel_count (final r_blank) = 0"
    by (simp add: r_blank_def)
  have b: "blank_tile 2 2 (tiles inp_blank ''f1'')"
    by (simp add: blank_tile_def inp_blank_def getpixel_def less_Suc_eq upto2 numeral_2_eq_2)
  show ?thesis
    using empty_classification_no_error [of py27_small_order mono mineral_ids inp_blank r_blank]
      run_blank c b
    by simp
qed

theorem empty_classification_counterexample:
  "run py27_small_order mono mineral_ids inp_blank = Inr r_blank \<and>
   classified_pixel_count (final r_blank) = 0 \<and>
   thumbnail_bbox r_blank = (1000000000, 1000000000, - 1, - 1)"
  using run_blank by (simp add: r_blank_def)

subsection \<open>The legend\<close>

text \<open>
  Claim C6. For an iteration order that visits every key once, the legend holds exactly
  the phases with a non-zero global count, each once, in order of non-increasing count.
  Phases with equal counts stand in the order in which the filtered dictionary is
  iterated: the sort is stable and has no second key. That order is the interpreter's,
  not ascending id: CPython 2.7 visits key 8 before key 1. The run is a function of its
  input, so running it again gives the same legend.
\<close>

theorem legend_order:
  assumes "run ord getsize mineral_id_of inp = Inr r" and "valid_order ord"
  shows "set (legend r) = {p \<in> set (phase_map (final r)). histogram (snd p) \<noteq> 0} \<and>
         distinct (map fst (legend r)) \<and>
         sorted_wrt (\<lambda>p q. histogram (snd q) \<le> histogram (snd p)) (legend r) \<and>
         filter (\<lambda>p. histogram (snd p) = c) (legend r) =
           filter (\<lambda>p. histogram (snd p) = c)
             (items ord (filter (\<lambda>p. histogram (snd p) \<noteq> 0) (items ord (phase_map (final r)))))"
proof -
  have d: "distinct (map fst (phase_map (final r)))"
    using phase_loop_distinct [of "[]" getsize mineral_id_of "phase_nodes inp" 0]
    by (simp add: run_keys [OF assms(1)] phase_catalog_def)
  show ?thesis
    unfolding run_Inr(4) [OF assms(1)]
    using nonzero_sorted_props [OF assms(2) d] by blast
qed

theorem legend_order_witness:
  "valid_order py27_small_order \<and>
   run py27_small_order mono mineral_ids inp_tie = Inr r_tie \<and>
   distinct (map fst (legend r_tie)) \<and>
   sorted_wrt (\<lambda>p q. histogram (snd q) \<le> histogram (snd p)) (legend r_tie) \<and>
   filter (\<lambda>p. histogram (snd p) = 1) (legend r_tie) =
     filter (\<lambda>p. histogram (snd p) = 1)
       (items py27_small_order (filter (\<lambda>p. histogram (snd p) \<noteq> 0)
          (items py27_small_order (phase_map (final r_tie)))))"
  using legend_order [OF run_tie valid_py27, of 1] run_tie valid_py27
  by simp

theorem legend_tie_counterexample:
  "run py27_small_order mono mineral_ids inp_tie = Inr r_tie \<and>
   map (\<lambda>p. (fst p, histogram (snd p))) (legend r_tie) = [(8, 1), (1, 1)]"
  using run_tie by (simp add: r_tie_def)

end
